theory Spec2Isabelle
  imports Main
begin

section \<open>Values, effects and failures\<close>

text \<open>
  Filters, update documents, options and items are plain JavaScript values that
  \<^verbatim>\<open>index.js\<close> hands to the MongoDB driver untouched. An object literal is
  an ordered list of fields, so \<^verbatim>\<open>{}\<close> is \<open>JObj []\<close>.
\<close>

datatype jsval =
    JNull
  | JBool bool
  | JNum int
  | JStr string
  | JArr "jsval list"
  | JObj "(string \<times> jsval) list"

text \<open>
  Every call can change the state it runs in and can throw. An awaited promise is
  its settled outcome: \<open>Inr\<close> a fulfilment value, \<open>Inl\<close> the rejection (thrown) value.
\<close>

type_synonym ('s, 'e, 'a) prog = "'s \<Rightarrow> ('e + 'a) \<times> 's"

definition returnP :: "'a \<Rightarrow> ('s, 'e, 'a) prog" where
  "returnP x = (\<lambda>s. (Inr x, s))"

definition throwP :: "'e \<Rightarrow> ('s, 'e, 'a) prog" where
  "throwP e = (\<lambda>s. (Inl e, s))"

definition bindP :: "('s, 'e, 'a) prog \<Rightarrow> ('a \<Rightarrow> ('s, 'e, 'b) prog) \<Rightarrow> ('s, 'e, 'b) prog" where
  "bindP m f = (\<lambda>s. case m s of (Inl e, s') \<Rightarrow> (Inl e, s') | (Inr x, s') \<Rightarrow> f x s')"

text \<open>\<^verbatim>\<open>try { m } catch (error) { handler(error) }\<close>\<close>

definition tryCatch :: "('s, 'e, 'a) prog \<Rightarrow> ('e \<Rightarrow> ('s, 'e, 'a) prog) \<Rightarrow> ('s, 'e, 'a) prog" where
  "tryCatch m handler = (\<lambda>s. case m s of (Inl e, s') \<Rightarrow> handler e s' | (Inr x, s') \<Rightarrow> (Inr x, s'))"

text \<open>
  A parameter with a default: \<open>None\<close> is an omitted (undefined) argument.
\<close>

definition or_default :: "'a \<Rightarrow> 'a option \<Rightarrow> 'a" where
  "or_default d arg = (case arg of None \<Rightarrow> d | Some v \<Rightarrow> v)"

section \<open>The driver surface that index.js calls\<close>

text \<open>
  \<^verbatim>\<open>const { MongoClient } = require('mongodb')\<close>: the driver is an external
  package, so it is a parameter of the model. The record lists exactly the calls that
  \<^verbatim>\<open>index.js\<close> makes, over a driver state \<open>'w\<close> (client objects, sockets, server),
  thrown values \<open>'e\<close> and references to the driver's client, Db, Collection and Cursor
  objects (\<open>'c\<close>, \<open>'d\<close>, \<open>'k\<close>, \<open>'r\<close>).
\<close>

record ('w, 'e, 'c, 'd, 'k, 'r) driver =
  drv_new :: "string \<Rightarrow> jsval \<Rightarrow> ('w, 'e, 'c) prog"
  drv_isConnected :: "'c \<Rightarrow> ('w, 'e, bool) prog"
  drv_connect :: "'c \<Rightarrow> ('w, 'e, unit) prog"
  drv_close :: "'c \<Rightarrow> ('w, 'e, jsval) prog"
  drv_db :: "'c \<Rightarrow> string \<Rightarrow> ('w, 'e, 'd) prog"
  drv_collection :: "'d \<Rightarrow> string \<Rightarrow> ('w, 'e, 'k) prog"
  drv_find :: "'k \<Rightarrow> jsval \<Rightarrow> ('w, 'e, 'r) prog"
  drv_toArray :: "'r \<Rightarrow> ('w, 'e, jsval list) prog"
  drv_updateMany :: "'k \<Rightarrow> jsval \<Rightarrow> jsval \<Rightarrow> jsval \<Rightarrow> ('w, 'e, jsval) prog"
  drv_insertMany :: "'k \<Rightarrow> jsval list \<Rightarrow> jsval \<Rightarrow> ('w, 'e, jsval) prog"
  drv_deleteMany :: "'k \<Rightarrow> jsval \<Rightarrow> jsval \<Rightarrow> ('w, 'e, jsval) prog"

section \<open>class GoMongoDB\<close>

text \<open>
  The object has one private field, \<^verbatim>\<open>#client\<close>. A method runs on the pair of the
  object and the driver state, and returns both, so an assignment to the field would
  show in the result.
\<close>

record 'c GoMongoDB =
  priv_client :: 'c

definition this :: "('c GoMongoDB \<times> 'w, 'e, 'c GoMongoDB) prog" where
  "this = (\<lambda>(h, w). (Inr h, (h, w)))"

text \<open>
  A call into the driver: it runs on the driver state and leaves the object alone, since
  a private field cannot be assigned from outside the class body.
\<close>

definition call :: "('w, 'e, 'a) prog \<Rightarrow> ('c GoMongoDB \<times> 'w, 'e, 'a) prog" where
  "call m = (\<lambda>(h, w). case m w of (r, w') \<Rightarrow> (r, (h, w')))"

definition constructor ::
  "('w, 'e, 'c, 'd, 'k, 'r) driver \<Rightarrow> string \<Rightarrow> ('w, 'e, 'c GoMongoDB) prog" where
  "constructor drv connection_url =
     bindP (drv_new drv connection_url (JObj [(''useUnifiedTopology'', JBool True)]))
       (\<lambda>c. returnP \<lparr>priv_client = c\<rparr>)"

definition client :: "('c GoMongoDB \<times> 'w, 'e, 'c) prog" where
  "client = bindP this (\<lambda>h. returnP (priv_client h))"

definition connect ::
  "('w, 'e, 'c, 'd, 'k, 'r) driver \<Rightarrow> ('c GoMongoDB \<times> 'w, 'e, 'c GoMongoDB) prog" where
  "connect drv =
     bindP client (\<lambda>c.
     bindP (call (drv_isConnected drv c)) (\<lambda>connected.
     bindP (if \<not> connected then bindP client (\<lambda>c'. call (drv_connect drv c')) else returnP ()) (\<lambda>_.
     this)))"

definition destroy ::
  "('w, 'e, 'c, 'd, 'k, 'r) driver \<Rightarrow> ('c GoMongoDB \<times> 'w, 'e, jsval) prog" where
  "destroy drv = bindP client (\<lambda>c. call (drv_close drv c))"

definition database ::
  "('w, 'e, 'c, 'd, 'k, 'r) driver \<Rightarrow> string \<Rightarrow> ('c GoMongoDB \<times> 'w, 'e, 'd) prog" where
  "database drv database_name =
     bindP this (\<lambda>h. call (drv_db drv (priv_client h) database_name))"

definition collection ::
  "('w, 'e, 'c, 'd, 'k, 'r) driver \<Rightarrow> string \<Rightarrow> string \<Rightarrow> ('c GoMongoDB \<times> 'w, 'e, 'k) prog" where
  "collection drv database_name collection_name =
     bindP (database drv database_name) (\<lambda>d. call (drv_collection drv d collection_name))"

definition find_op ::
  "('w, 'e, 'c, 'd, 'k, 'r) driver \<Rightarrow> string \<Rightarrow> string \<Rightarrow> jsval option \<Rightarrow>
     ('c GoMongoDB \<times> 'w, 'e, jsval list) prog" where
  "find_op drv database_name collection_name filter_arg =
     tryCatch
       (bindP (connect drv) (\<lambda>_.
        bindP (collection drv database_name collection_name) (\<lambda>k.
        bindP (call (drv_find drv k (or_default (JObj []) filter_arg))) (\<lambda>cursor.
        call (drv_toArray drv cursor)))))
       (\<lambda>error. throwP error)"

definition update ::
  "('w, 'e, 'c, 'd, 'k, 'r) driver \<Rightarrow> string \<Rightarrow> string \<Rightarrow> jsval option \<Rightarrow> jsval option \<Rightarrow>
     jsval option \<Rightarrow> ('c GoMongoDB \<times> 'w, 'e, jsval) prog" where
  "update drv database_name collection_name filter_arg update_arg options =
     tryCatch
       (bindP (connect drv) (\<lambda>_.
        bindP (collection drv database_name collection_name) (\<lambda>k.
        call (drv_updateMany drv k (or_default (JObj []) filter_arg)
                (or_default (JObj []) update_arg) (or_default (JObj []) options)))))
       (\<lambda>error. throwP error)"

definition add ::
  "('w, 'e, 'c, 'd, 'k, 'r) driver \<Rightarrow> string \<Rightarrow> string \<Rightarrow> jsval list option \<Rightarrow>
     jsval option \<Rightarrow> ('c GoMongoDB \<times> 'w, 'e, jsval) prog" where
  "add drv database_name collection_name items options =
     tryCatch
       (bindP (connect drv) (\<lambda>_.
        bindP (collection drv database_name collection_name) (\<lambda>k.
        call (drv_insertMany drv k (or_default [] items) (or_default (JObj []) options)))))
       (\<lambda>error. throwP error)"

definition remove ::
  "('w, 'e, 'c, 'd, 'k, 'r) driver \<Rightarrow> string \<Rightarrow> string \<Rightarrow> jsval option \<Rightarrow> jsval option \<Rightarrow>
     ('c GoMongoDB \<times> 'w, 'e, jsval) prog" where
  "remove drv database_name collection_name filter_arg options =
     tryCatch
       (bindP (connect drv) (\<lambda>_.
        bindP (collection drv database_name collection_name) (\<lambda>k.
        call (drv_deleteMany drv k (or_default (JObj []) filter_arg)
                (or_default (JObj []) options)))))
       (\<lambda>error. throwP error)"

subsection \<open>The same four bodies with the try/catch taken away\<close>

definition find_direct ::
  "('w, 'e, 'c, 'd, 'k, 'r) driver \<Rightarrow> string \<Rightarrow> string \<Rightarrow> jsval option \<Rightarrow>
     ('c GoMongoDB \<times> 'w, 'e, jsval list) prog" where
  "find_direct drv database_name collection_name filter_arg =
     bindP (connect drv) (\<lambda>_.
     bindP (collection drv database_name collection_name) (\<lambda>k.
     bindP (call (drv_find drv k (or_default (JObj []) filter_arg))) (\<lambda>cursor.
     call (drv_toArray drv cursor))))"

definition update_direct ::
  "('w, 'e, 'c, 'd, 'k, 'r) driver \<Rightarrow> string \<Rightarrow> string \<Rightarrow> jsval option \<Rightarrow> jsval option \<Rightarrow>
     jsval option \<Rightarrow> ('c GoMongoDB \<times> 'w, 'e, jsval) prog" where
  "update_direct drv database_name collection_name filter_arg update_arg options =
     bindP (connect drv) (\<lambda>_.
     bindP (collection drv database_name collection_name) (\<lambda>k.
     call (drv_updateMany drv k (or_default (JObj []) filter_arg)
             (or_default (JObj []) update_arg) (or_default (JObj []) options))))"

definition add_direct ::
  "('w, 'e, 'c, 'd, 'k, 'r) driver \<Rightarrow> string \<Rightarrow> string \<Rightarrow> jsval list option \<Rightarrow>
     jsval option \<Rightarrow> ('c GoMongoDB \<times> 'w, 'e, jsval) prog" where
  "add_direct drv database_name collection_name items options =
     bindP (connect drv) (\<lambda>_.
     bindP (collection drv database_name collection_name) (\<lambda>k.
     call (drv_insertMany drv k (or_default [] items) (or_default (JObj []) options))))"

definition remove_direct ::
  "('w, 'e, 'c, 'd, 'k, 'r) driver \<Rightarrow> string \<Rightarrow> string \<Rightarrow> jsval option \<Rightarrow> jsval option \<Rightarrow>
     ('c GoMongoDB \<times> 'w, 'e, jsval) prog" where
  "remove_direct drv database_name collection_name filter_arg options =
     bindP (connect drv) (\<lambda>_.
     bindP (collection drv database_name collection_name) (\<lambda>k.
     call (drv_deleteMany drv k (or_default (JObj []) filter_arg)
             (or_default (JObj []) options))))"

section \<open>Instrumenting a driver\<close>

text \<open>
  A spy around any driver: it forwards every call and appends to a log the call made and,
  when the call threw, the value thrown. Method receivers are not logged.
\<close>

datatype dcall =
    NewClient string jsval
  | IsConnected
  | Connect
  | Close
  | Db string
  | Collection string
  | Find jsval
  | ToArray
  | UpdateMany jsval jsval jsval
  | InsertMany "jsval list" jsval
  | DeleteMany jsval jsval

type_synonym 'e calllog = "(dcall \<times> 'e option) list"

definition record_call :: "dcall \<Rightarrow> ('w, 'e, 'a) prog \<Rightarrow> ('e calllog \<times> 'w, 'e, 'a) prog" where
  "record_call tag m = (\<lambda>(log, w). case m w of
       (Inl e, w') \<Rightarrow> (Inl e, (log @ [(tag, Some e)], w'))
     | (Inr x, w') \<Rightarrow> (Inr x, (log @ [(tag, None)], w')))"

definition logged ::
  "('w, 'e, 'c, 'd, 'k, 'r) driver \<Rightarrow> ('e calllog \<times> 'w, 'e, 'c, 'd, 'k, 'r) driver" where
  "logged drv = \<lparr>
     drv_new = (\<lambda>url opts. record_call (NewClient url opts) (drv_new drv url opts)),
     drv_isConnected = (\<lambda>c. record_call IsConnected (drv_isConnected drv c)),
     drv_connect = (\<lambda>c. record_call Connect (drv_connect drv c)),
     drv_close = (\<lambda>c. record_call Close (drv_close drv c)),
     drv_db = (\<lambda>c name. record_call (Db name) (drv_db drv c name)),
     drv_collection = (\<lambda>d name. record_call (Collection name) (drv_collection drv d name)),
     drv_find = (\<lambda>k flt. record_call (Find flt) (drv_find drv k flt)),
     drv_toArray = (\<lambda>r. record_call ToArray (drv_toArray drv r)),
     drv_updateMany = (\<lambda>k flt upd opts.
        record_call (UpdateMany flt upd opts) (drv_updateMany drv k flt upd opts)),
     drv_insertMany = (\<lambda>k items opts.
        record_call (InsertMany items opts) (drv_insertMany drv k items opts)),
     drv_deleteMany = (\<lambda>k flt opts.
        record_call (DeleteMany flt opts) (drv_deleteMany drv k flt opts)) \<rparr>"

text \<open>The calls of a log, and how often it asked the driver to connect.\<close>

definition calls :: "'e calllog \<Rightarrow> dcall list" where
  "calls log = map fst log"

definition connect_attempts :: "'e calllog \<Rightarrow> nat" where
  "connect_attempts log = length (filter (\<lambda>entry. fst entry = Connect) log)"

text \<open>What a method leaves behind when it starts on an empty log.\<close>

definition outcome :: "('e + 'a) \<times> 'h \<times> 'e calllog \<times> 'w \<Rightarrow> 'e + 'a" where
  "outcome res = fst res"

definition handle_after :: "('e + 'a) \<times> 'h \<times> 'w \<Rightarrow> 'h" where
  "handle_after res = fst (snd res)"

definition log_after :: "('e + 'a) \<times> 'h \<times> 'e calllog \<times> 'w \<Rightarrow> 'e calllog" where
  "log_after res = fst (snd (snd res))"

definition world_after :: "('e + 'a) \<times> 'h \<times> 'e calllog \<times> 'w \<Rightarrow> 'w" where
  "world_after res = snd (snd (snd res))"

text \<open>A log in which every call succeeded.\<close>

definition succeeded :: "dcall list \<Rightarrow> 'e calllog" where
  "succeeded cs = map (\<lambda>c. (c, None)) cs"

text \<open>
  A log agrees with the outcome of the method that produced it when every driver call
  in it succeeded, except that a method that threw \<open>e\<close> ends the log with a call that
  threw that same \<open>e\<close>. So no driver failure is swallowed, none is replaced by another
  value, the method throws nothing that no driver call threw, and no driver call follows
  a failed one.
\<close>

definition settled :: "'e calllog \<Rightarrow> 'e + 'a \<Rightarrow> bool" where
  "settled log res =
     (map snd log =
        (case res of
           Inl e \<Rightarrow> replicate (length log - 1) None @ [Some e]
         | Inr _ \<Rightarrow> replicate (length log) None))"

section \<open>Properties of programs\<close>

text \<open>
  These are statements about programs, used in the proofs; they are not part of the code.
  A program over an instrumented driver is tracked when, from any log, it only appends
  to the log and what it appends agrees with its outcome.
\<close>

definition tracks :: "('h \<times> 'e calllog \<times> 'w, 'e, 'a) prog \<Rightarrow> bool" where
  "tracks p = (\<forall>h log w. \<exists>ext.
     log_after (p (h, (log, w))) = log @ ext \<and> settled ext (outcome (p (h, (log, w)))))"

text \<open>A program keeps the object when it never assigns to its field.\<close>

definition keeps_handle :: "('h \<times> 'w, 'e, 'a) prog \<Rightarrow> bool" where
  "keeps_handle p = (\<forall>h w. handle_after (p (h, w)) = h)"

text \<open>
  A driver whose client answers \<^verbatim>\<open>isConnected()\<close> with true once
  \<^verbatim>\<open>connect()\<close> has resolved.
\<close>

definition reports_connected :: "('w, 'e, 'c, 'd, 'k, 'r) driver \<Rightarrow> bool" where
  "reports_connected drv =
     (\<forall>c w w'. drv_connect drv c w = (Inr (), w') \<longrightarrow> fst (drv_isConnected drv c w') = Inr True)"

section \<open>A test double of the driver\<close>

text \<open>
  Modelled from the spec: the \<^verbatim>\<open>mongodb\<close> package (MongoClient, Db, Collection,
  Cursor) is an external dependency and not part of the sources. The double follows the
  spec's description of it: a client object is instantiated from a URL without network
  I/O and without an error for a malformed URL; its lifecycle is unconnected, connected,
  closed; connecting may fail; data operations need a connected client; a filter selects
  documents and the empty filter matches all; find yields the matching documents in the
  collection's order; update-many applies the update to every match and reports
  matched/modified counts; insert-many appends the items in order and reports the
  inserted count; delete-many deletes every match. What happens after close is left open
  by the spec; the double fails fast with a handle-closed error, the policy the spec's
  design notes suggest. Which URLs can be connected to (\<open>reachable\<close>) and what an update
  specification does to one document (\<open>apply_update\<close>) are parameters.
\<close>

datatype lifecycle = Unconnected | Connected | Closed

datatype mem_error =
    ConnectionFailure string
  | NotConnected
  | HandleClosed
  | UnknownClient

text \<open>
  Modelled from the spec: the state behind the driver, absent from the sources. The client
  objects created so far, each with its URL and lifecycle state and referred to by its
  position, and the documents of every collection in their natural order.
\<close>

record mem_world =
  clients :: "(string \<times> lifecycle) list"
  documents :: "string \<times> string \<Rightarrow> jsval list"

text \<open>
  Modelled from the spec: reading and writing a client object of that state; a reference to
  no client reads as \<open>None\<close>.
\<close>

definition client_at :: "mem_world \<Rightarrow> nat \<Rightarrow> (string \<times> lifecycle) option" where
  "client_at w c = (if c < length (clients w) then Some (clients w ! c) else None)"

definition set_lifecycle :: "nat \<Rightarrow> lifecycle \<Rightarrow> mem_world \<Rightarrow> mem_world" where
  "set_lifecycle c st w =
     (case client_at w c of
        None \<Rightarrow> w
      | Some (url, _) \<Rightarrow> w\<lparr>clients := (clients w)[c := (url, st)]\<rparr>)"

text \<open>
  Modelled from the spec: the fields of a structured value; a value that is no object has
  none.
\<close>

fun fields :: "jsval \<Rightarrow> (string \<times> jsval) list" where
  "fields (JObj fs) = fs"
| "fields _ = []"

text \<open>
  Modelled from the spec: filter matching, absent from the sources. A filter selects the
  documents that carry each of its fields with the same value; the empty filter matches all.
\<close>

definition matches :: "jsval \<Rightarrow> jsval \<Rightarrow> bool" where
  "matches flt doc = list_all (\<lambda>(name, v). map_of (fields doc) name = Some v) (fields flt)"

text \<open>
  Modelled from the spec: the MongoClient constructor, absent from the sources. It
  instantiates the client object from the URL, without network I/O and without an error for
  a malformed URL.
\<close>

definition mem_new :: "string \<Rightarrow> jsval \<Rightarrow> (mem_world, mem_error, nat) prog" where
  "mem_new url opts =
     (\<lambda>w. (Inr (length (clients w)), w\<lparr>clients := clients w @ [(url, Unconnected)]\<rparr>))"

text \<open>Modelled from the spec: MongoClient.isConnected, absent from the sources.\<close>

definition mem_isConnected :: "nat \<Rightarrow> (mem_world, mem_error, bool) prog" where
  "mem_isConnected c = (\<lambda>w. (Inr (map_option snd (client_at w c) = Some Connected), w))"

text \<open>
  Modelled from the spec: MongoClient.connect, absent from the sources. It performs the
  network connection, which may fail; an unusable URL shows here.
\<close>

definition mem_connect :: "(string \<Rightarrow> bool) \<Rightarrow> nat \<Rightarrow> (mem_world, mem_error, unit) prog" where
  "mem_connect reachable c = (\<lambda>w.
     case client_at w c of
       None \<Rightarrow> (Inl UnknownClient, w)
     | Some (url, st) \<Rightarrow>
         (case st of
            Closed \<Rightarrow> (Inl HandleClosed, w)
          | Connected \<Rightarrow> (Inr (), w)
          | Unconnected \<Rightarrow>
              if reachable url then (Inr (), set_lifecycle c Connected w)
              else (Inl (ConnectionFailure url), w)))"

text \<open>
  Modelled from the spec: MongoClient.close, absent from the sources. It closes the
  connection for good.
\<close>

definition mem_close :: "nat \<Rightarrow> (mem_world, mem_error, jsval) prog" where
  "mem_close c = (\<lambda>w.
     case client_at w c of
       None \<Rightarrow> (Inl UnknownClient, w)
     | Some _ \<Rightarrow> (Inr JNull, set_lifecycle c Closed w))"

text \<open>
  Modelled from the spec: MongoClient.db, absent from the sources. A pure lookup with no
  validation of the name.
\<close>

definition mem_db :: "nat \<Rightarrow> string \<Rightarrow> (mem_world, mem_error, nat \<times> string) prog" where
  "mem_db c database_name = returnP (c, database_name)"

text \<open>
  Modelled from the spec: Db.collection, absent from the sources. A pure lookup.
\<close>

definition mem_collection ::
  "nat \<times> string \<Rightarrow> string \<Rightarrow> (mem_world, mem_error, nat \<times> string \<times> string) prog" where
  "mem_collection d collection_name = returnP (fst d, snd d, collection_name)"

text \<open>
  Modelled from the spec: connect must have been invoked before any data operation, so on a
  client that is not connected a data operation fails.
\<close>

definition live :: "nat \<Rightarrow> (mem_world, mem_error, unit) prog" where
  "live c = (\<lambda>w.
     case client_at w c of
       None \<Rightarrow> (Inl UnknownClient, w)
     | Some (url, st) \<Rightarrow>
         (case st of
            Connected \<Rightarrow> (Inr (), w)
          | Unconnected \<Rightarrow> (Inl NotConnected, w)
          | Closed \<Rightarrow> (Inl HandleClosed, w)))"

text \<open>
  Modelled from the spec: Collection.find, absent from the sources. It builds a cursor and
  reads nothing yet.
\<close>

definition mem_find ::
  "nat \<times> string \<times> string \<Rightarrow> jsval \<Rightarrow>
     (mem_world, mem_error, (nat \<times> string \<times> string) \<times> jsval) prog" where
  "mem_find k flt = returnP (k, flt)"

text \<open>
  Modelled from the spec: Cursor.toArray, absent from the sources. The matching documents,
  all of them, in the collection's order.
\<close>

definition mem_toArray ::
  "(nat \<times> string \<times> string) \<times> jsval \<Rightarrow> (mem_world, mem_error, jsval list) prog" where
  "mem_toArray cursor =
     bindP (live (fst (fst cursor)))
       (\<lambda>_ w. (Inr (filter (matches (snd cursor)) (documents w (snd (fst cursor)))), w))"

text \<open>
  Modelled from the spec: the result summary of an update, the counts of matched and
  modified documents.
\<close>

definition update_summary :: "nat \<Rightarrow> nat \<Rightarrow> jsval" where
  "update_summary matched modified =
     JObj [(''matchedCount'', JNum (int matched)), (''modifiedCount'', JNum (int modified))]"

text \<open>
  Modelled from the spec: Collection.updateMany, absent from the sources. Every matching
  document is updated; the summary counts the matched and the modified ones.
\<close>

definition mem_updateMany ::
  "(jsval \<Rightarrow> jsval \<Rightarrow> jsval) \<Rightarrow> nat \<times> string \<times> string \<Rightarrow> jsval \<Rightarrow> jsval \<Rightarrow> jsval \<Rightarrow>
     (mem_world, mem_error, jsval) prog" where
  "mem_updateMany apply_update k flt upd opts =
     bindP (live (fst k)) (\<lambda>_ w.
       let docs = documents w (snd k) in
       (Inr (update_summary (length (filter (matches flt) docs))
               (length (filter (\<lambda>doc. matches flt doc \<and> apply_update upd doc \<noteq> doc) docs))),
        w\<lparr>documents := (documents w)
             (snd k := map (\<lambda>doc. if matches flt doc then apply_update upd doc else doc) docs)\<rparr>))"

text \<open>
  Modelled from the spec: the result summary of an insertion, the inserted count.
\<close>

definition insert_summary :: "nat \<Rightarrow> jsval" where
  "insert_summary inserted = JObj [(''insertedCount'', JNum (int inserted))]"

text \<open>
  Modelled from the spec: Collection.insertMany, absent from the sources. The items become
  new documents in the given order; an empty sequence is a valid insert of nothing.
\<close>

definition mem_insertMany ::
  "nat \<times> string \<times> string \<Rightarrow> jsval list \<Rightarrow> jsval \<Rightarrow> (mem_world, mem_error, jsval) prog" where
  "mem_insertMany k items opts =
     bindP (live (fst k)) (\<lambda>_ w.
       (Inr (insert_summary (length items)),
        w\<lparr>documents := (documents w)(snd k := documents w (snd k) @ items)\<rparr>))"

text \<open>Modelled from the spec: the result summary of a deletion, the deleted count.\<close>

definition delete_summary :: "nat \<Rightarrow> jsval" where
  "delete_summary deleted = JObj [(''deletedCount'', JNum (int deleted))]"

text \<open>
  Modelled from the spec: Collection.deleteMany, absent from the sources. Every matching
  document is deleted.
\<close>

definition mem_deleteMany ::
  "nat \<times> string \<times> string \<Rightarrow> jsval \<Rightarrow> jsval \<Rightarrow> (mem_world, mem_error, jsval) prog" where
  "mem_deleteMany k flt opts =
     bindP (live (fst k)) (\<lambda>_ w.
       let docs = documents w (snd k) in
       (Inr (delete_summary (length (filter (matches flt) docs))),
        w\<lparr>documents := (documents w)(snd k := filter (\<lambda>doc. \<not> matches flt doc) docs)\<rparr>))"

text \<open>The double as a driver.\<close>

definition mem_driver ::
  "(string \<Rightarrow> bool) \<Rightarrow> (jsval \<Rightarrow> jsval \<Rightarrow> jsval) \<Rightarrow>
     (mem_world, mem_error, nat, nat \<times> string, nat \<times> string \<times> string,
      (nat \<times> string \<times> string) \<times> jsval) driver" where
  "mem_driver reachable apply_update = \<lparr>
     drv_new = mem_new,
     drv_isConnected = mem_isConnected,
     drv_connect = mem_connect reachable,
     drv_close = mem_close,
     drv_db = mem_db,
     drv_collection = mem_collection,
     drv_find = mem_find,
     drv_toArray = mem_toArray,
     drv_updateMany = mem_updateMany apply_update,
     drv_insertMany = mem_insertMany,
     drv_deleteMany = mem_deleteMany \<rparr>"

text \<open>
  A client the double can serve: connected already, or unconnected with a reachable URL.
\<close>

definition connectable :: "(string \<Rightarrow> bool) \<Rightarrow> mem_world \<Rightarrow> nat \<Rightarrow> bool" where
  "connectable reachable w c =
     (case client_at w c of
        None \<Rightarrow> False
      | Some (url, st) \<Rightarrow>
          (case st of Connected \<Rightarrow> True | Unconnected \<Rightarrow> reachable url | Closed \<Rightarrow> False))"

text \<open>
  The driver calls of one \<^verbatim>\<open>connect()\<close> on such a client.
\<close>

definition connect_calls :: "mem_world \<Rightarrow> nat \<Rightarrow> dcall list" where
  "connect_calls w c =
     (if map_option snd (client_at w c) = Some Connected then [IsConnected]
      else [IsConnected, Connect])"

subsection \<open>Fixtures\<close>

definition local_url :: string where
  "local_url = ''mongodb://localhost:27017''"

definition only_local :: "string \<Rightarrow> bool" where
  "only_local url = (url = local_url)"

text \<open>An update specification whose fields overwrite or extend the document's.\<close>

definition set_fields :: "jsval \<Rightarrow> jsval \<Rightarrow> jsval" where
  "set_fields upd doc =
     JObj (fields upd @ filter (\<lambda>field. fst field \<notin> set (map fst (fields upd))) (fields doc))"

definition doc_a :: jsval where
  "doc_a = JObj [(''id'', JNum 1), (''name'', JStr ''a'')]"

definition doc_b :: jsval where
  "doc_b = JObj [(''id'', JNum 2), (''name'', JStr ''b'')]"

definition doc_c :: jsval where
  "doc_c = JObj [(''id'', JNum 3), (''name'', JStr ''c'')]"

definition seeded :: "string \<times> string \<Rightarrow> jsval list" where
  "seeded k = (if k = (''db'', ''coll'') then [doc_a, doc_b] else [])"

definition fresh_world :: mem_world where
  "fresh_world = \<lparr>clients = [(local_url, Unconnected)], documents = seeded\<rparr>"

definition connected_world :: mem_world where
  "connected_world = \<lparr>clients = [(local_url, Connected)], documents = seeded\<rparr>"

definition offline_url :: string where
  "offline_url = ''mongodb://nowhere.invalid:27017''"

definition offline_world :: mem_world where
  "offline_world = \<lparr>clients = [(offline_url, Unconnected)], documents = seeded\<rparr>"

definition handle0 :: "nat GoMongoDB" where
  "handle0 = \<lparr>priv_client = 0\<rparr>"

definition test_double ::
  "(mem_error calllog \<times> mem_world, mem_error, nat, nat \<times> string, nat \<times> string \<times> string,
     (nat \<times> string \<times> string) \<times> jsval) driver" where
  "test_double = logged (mem_driver only_local set_fields)"

section \<open>Laws of the effect combinators\<close>

lemma tryCatch_rethrow: "tryCatch m (\<lambda>error. throwP error) = m"
  by (rule ext) (simp add: tryCatch_def throwP_def split: prod.splits sum.splits)

lemma bindP_apply:
  "bindP m f s = (case m s of (Inl e, s') \<Rightarrow> (Inl e, s') | (Inr x, s') \<Rightarrow> f x s')"
  by (simp add: bindP_def)

lemma call_apply: "call m (h, w) = (case m w of (r, w') \<Rightarrow> (r, (h, w')))"
  by (simp add: call_def)

lemma record_call_apply:
  "record_call tag m (log, w) =
     (case m w of
        (Inl e, w') \<Rightarrow> (Inl e, (log @ [(tag, Some e)], w'))
      | (Inr x, w') \<Rightarrow> (Inr x, (log @ [(tag, None)], w')))"
  by (simp add: record_call_def)

lemma logged_sel:
  "drv_new (logged drv) url opts = record_call (NewClient url opts) (drv_new drv url opts)"
  "drv_isConnected (logged drv) c = record_call IsConnected (drv_isConnected drv c)"
  "drv_connect (logged drv) c = record_call Connect (drv_connect drv c)"
  "drv_close (logged drv) c = record_call Close (drv_close drv c)"
  "drv_db (logged drv) c name = record_call (Db name) (drv_db drv c name)"
  "drv_collection (logged drv) d name = record_call (Collection name) (drv_collection drv d name)"
  "drv_find (logged drv) k flt = record_call (Find flt) (drv_find drv k flt)"
  "drv_toArray (logged drv) r = record_call ToArray (drv_toArray drv r)"
  "drv_updateMany (logged drv) k flt upd opts =
     record_call (UpdateMany flt upd opts) (drv_updateMany drv k flt upd opts)"
  "drv_insertMany (logged drv) k items opts =
     record_call (InsertMany items opts) (drv_insertMany drv k items opts)"
  "drv_deleteMany (logged drv) k flt opts =
     record_call (DeleteMany flt opts) (drv_deleteMany drv k flt opts)"
  by (simp_all add: logged_def)

section \<open>The methods, one driver call at a time\<close>

lemma find_op_unwrap: "find_op drv d c f = find_direct drv d c f"
  unfolding find_op_def find_direct_def by (rule tryCatch_rethrow)

lemma update_unwrap: "update drv d c f u opts = update_direct drv d c f u opts"
  unfolding update_def update_direct_def by (rule tryCatch_rethrow)

lemma add_unwrap: "add drv d c items opts = add_direct drv d c items opts"
  unfolding add_def add_direct_def by (rule tryCatch_rethrow)

lemma remove_unwrap: "remove drv d c f opts = remove_direct drv d c f opts"
  unfolding remove_def remove_direct_def by (rule tryCatch_rethrow)

lemma constructor_apply:
  "constructor drv url w =
     (case drv_new drv url (JObj [(''useUnifiedTopology'', JBool True)]) w of
        (Inl e, w') \<Rightarrow> (Inl e, w')
      | (Inr c, w') \<Rightarrow> (Inr \<lparr>priv_client = c\<rparr>, w'))"
  by (simp add: constructor_def bindP_apply returnP_def)

lemma constructor_logged_apply:
  "constructor (logged drv) url (log, w) =
     (case drv_new drv url (JObj [(''useUnifiedTopology'', JBool True)]) w of
        (Inl e, w') \<Rightarrow>
          (Inl e,
           (log @ [(NewClient url (JObj [(''useUnifiedTopology'', JBool True)]), Some e)], w'))
      | (Inr c, w') \<Rightarrow>
          (Inr \<lparr>priv_client = c\<rparr>,
           (log @ [(NewClient url (JObj [(''useUnifiedTopology'', JBool True)]), None)], w')))"
  by (simp add: constructor_apply logged_sel record_call_apply split: prod.splits sum.splits)

lemma constructor_logged_first:
  "constructor (logged drv) url ([], w) =
     (case drv_new drv url (JObj [(''useUnifiedTopology'', JBool True)]) w of
        (Inl e, w') \<Rightarrow>
          (Inl e, ([(NewClient url (JObj [(''useUnifiedTopology'', JBool True)]), Some e)], w'))
      | (Inr c, w') \<Rightarrow>
          (Inr \<lparr>priv_client = c\<rparr>,
           ([(NewClient url (JObj [(''useUnifiedTopology'', JBool True)]), None)], w')))"
  by (simp add: constructor_logged_apply split: prod.splits sum.splits)

lemma client_apply: "client (h, w) = (Inr (priv_client h), (h, w))"
  by (simp add: client_def this_def bindP_def returnP_def)

lemma database_apply:
  "database drv d (h, w) = (case drv_db drv (priv_client h) d w of (r, w') \<Rightarrow> (r, (h, w')))"
  by (simp add: database_def this_def bindP_def call_def)

lemma collection_via_database:
  "collection drv d c (h, w) =
     (case database drv d (h, w) of
        (Inl e, s') \<Rightarrow> (Inl e, s')
      | (Inr db, s') \<Rightarrow> call (drv_collection drv db c) s')"
  by (simp add: collection_def bindP_apply)

lemma collection_apply:
  "collection drv d c (h, w) =
     (case drv_db drv (priv_client h) d w of
        (Inl e, w1) \<Rightarrow> (Inl e, (h, w1))
      | (Inr db, w1) \<Rightarrow> (case drv_collection drv db c w1 of (r, w2) \<Rightarrow> (r, (h, w2))))"
  by (simp add: collection_def database_apply bindP_apply call_apply split: prod.splits sum.splits)

lemma connect_apply:
  "connect drv (h, w) =
     (case drv_isConnected drv (priv_client h) w of
        (Inl e, w1) \<Rightarrow> (Inl e, (h, w1))
      | (Inr True, w1) \<Rightarrow> (Inr h, (h, w1))
      | (Inr False, w1) \<Rightarrow>
          (case drv_connect drv (priv_client h) w1 of
             (Inl e, w2) \<Rightarrow> (Inl e, (h, w2))
           | (Inr u, w2) \<Rightarrow> (Inr h, (h, w2))))"
  by (simp add: connect_def client_apply bindP_apply call_apply this_def returnP_def
      split: prod.splits sum.splits bool.splits)

lemma connect_logged_apply:
  "connect (logged drv) (h, (log, w)) =
     (case drv_isConnected drv (priv_client h) w of
        (Inl e, w1) \<Rightarrow> (Inl e, (h, (log @ [(IsConnected, Some e)], w1)))
      | (Inr True, w1) \<Rightarrow> (Inr h, (h, (log @ [(IsConnected, None)], w1)))
      | (Inr False, w1) \<Rightarrow>
          (case drv_connect drv (priv_client h) w1 of
             (Inl e, w2) \<Rightarrow> (Inl e, (h, (log @ [(IsConnected, None), (Connect, Some e)], w2)))
           | (Inr u, w2) \<Rightarrow> (Inr h, (h, (log @ [(IsConnected, None), (Connect, None)], w2)))))"
proof -
  obtain r w1 where ic: "drv_isConnected drv (priv_client h) w = (r, w1)"
    by (metis prod.exhaust)
  obtain r2 w2 where dc: "drv_connect drv (priv_client h) w1 = (r2, w2)"
    by (metis prod.exhaust)
  show ?thesis
  proof (cases r)
    case (Inl e)
    with ic show ?thesis
      by (simp add: connect_apply logged_sel record_call_apply)
  next
    case (Inr b)
    with ic dc show ?thesis
      by (cases b; cases r2) (simp_all add: connect_apply logged_sel record_call_apply)
  qed
qed

section \<open>Logs agree with outcomes\<close>

lemma settled_Nil: "settled [] (Inr x)"
  by (simp add: settled_def)

lemma settled_Inr_iff: "settled log (Inr x) \<longleftrightarrow> list_all (\<lambda>entry. snd entry = None) log"
  by (induction log) (simp_all add: settled_def)

lemma settled_Inl_snoc:
  "settled (log @ [entry]) (Inl e) \<longleftrightarrow>
     snd entry = Some e \<and> list_all (\<lambda>entry. snd entry = None) log"
proof -
  have "map snd log = replicate (length log) None \<longleftrightarrow> list_all (\<lambda>entry. snd entry = None) log"
    by (induction log) simp_all
  then show ?thesis
    by (auto simp: settled_def)
qed

lemma settled_Inl_Nil: "\<not> settled [] (Inl e)"
  by (simp add: settled_def)

lemma settled_append:
  assumes "settled ext1 (Inr x)" and "settled ext2 r"
  shows "settled (ext1 @ ext2) r"
proof (cases r)
  case (Inl e)
  with assms(2) have ne: "ext2 \<noteq> []"
    by (auto simp: settled_def)
  then have len: "length ext1 + length ext2 - Suc 0 = length ext1 + (length ext2 - Suc 0)"
    by (cases ext2) simp_all
  from assms Inl show ?thesis
    by (simp add: settled_def len replicate_add)
next
  case (Inr y)
  with assms show ?thesis
    by (simp add: settled_def replicate_add)
qed

lemma tracks_returnP: "tracks (returnP x)"
  by (simp add: tracks_def returnP_def log_after_def outcome_def settled_Nil)

lemma tracks_this: "tracks this"
  by (simp add: tracks_def this_def log_after_def outcome_def settled_Nil)

lemma tracks_call: "tracks (call (record_call tag m))"
  by (auto simp: tracks_def call_apply record_call_apply log_after_def outcome_def settled_def
      split: prod.splits sum.splits)

lemma tracks_bindP:
  assumes "tracks m" and "\<And>x. tracks (f x)"
  shows "tracks (bindP m f)"
  unfolding tracks_def
proof (intro allI)
  fix h log w
  from assms(1) obtain ext1 where
    1: "log_after (m (h, (log, w))) = log @ ext1" "settled ext1 (outcome (m (h, (log, w))))"
    unfolding tracks_def by blast
  obtain r h1 log1 w1 where m: "m (h, (log, w)) = (r, (h1, (log1, w1)))"
    by (metis prod.exhaust)
  show "\<exists>ext. log_after (bindP m f (h, (log, w))) = log @ ext \<and>
          settled ext (outcome (bindP m f (h, (log, w))))"
  proof (cases r)
    case (Inl e)
    with 1 m show ?thesis
      by (auto simp: bindP_apply log_after_def outcome_def settled_def)
  next
    case (Inr x)
    from assms(2) obtain ext2 where
      2: "log_after (f x (h1, (log1, w1))) = log1 @ ext2"
         "settled ext2 (outcome (f x (h1, (log1, w1))))"
      unfolding tracks_def by blast
    from 1 m Inr have "log1 = log @ ext1" "settled ext1 (Inr x)"
      by (simp_all add: log_after_def outcome_def)
    with 2 m Inr show ?thesis
      by (auto simp: bindP_apply log_after_def outcome_def intro: settled_append)
  qed
qed

lemma tracks_client: "tracks client"
  unfolding client_def by (intro tracks_bindP tracks_this tracks_returnP)

lemma tracks_connect: "tracks (connect (logged drv))"
  unfolding connect_def logged_sel
  by (intro tracks_bindP tracks_client tracks_call tracks_this)
     (auto intro: tracks_bindP tracks_client tracks_call tracks_returnP)

lemma tracks_database: "tracks (database (logged drv) d)"
  unfolding database_def logged_sel by (intro tracks_bindP tracks_this tracks_call)

lemma tracks_collection: "tracks (collection (logged drv) d c)"
  unfolding collection_def database_def logged_sel
  by (intro tracks_bindP tracks_this tracks_call)

lemma tracks_find: "tracks (find_op (logged drv) d c f)"
  unfolding find_op_unwrap find_direct_def logged_sel
  by (intro tracks_bindP tracks_connect tracks_collection tracks_call)

lemma tracks_update: "tracks (update (logged drv) d c f u opts)"
  unfolding update_unwrap update_direct_def logged_sel
  by (intro tracks_bindP tracks_connect tracks_collection tracks_call)

lemma tracks_add: "tracks (add (logged drv) d c items opts)"
  unfolding add_unwrap add_direct_def logged_sel
  by (intro tracks_bindP tracks_connect tracks_collection tracks_call)

lemma tracks_remove: "tracks (remove (logged drv) d c f opts)"
  unfolding remove_unwrap remove_direct_def logged_sel
  by (intro tracks_bindP tracks_connect tracks_collection tracks_call)

lemma tracks_from_empty:
  "tracks p \<Longrightarrow> settled (log_after (p (h, ([], w)))) (outcome (p (h, ([], w))))"
  unfolding tracks_def by (metis append_Nil)

section \<open>No method assigns to the private field\<close>

lemma keeps_returnP: "keeps_handle (returnP x)"
  by (simp add: keeps_handle_def returnP_def handle_after_def)

lemma keeps_this: "keeps_handle this"
  by (simp add: keeps_handle_def this_def handle_after_def)

lemma keeps_call: "keeps_handle (call m)"
  by (simp add: keeps_handle_def call_apply handle_after_def split: prod.splits)

lemma keeps_bindP:
  assumes "keeps_handle m" and "\<And>x. keeps_handle (f x)"
  shows "keeps_handle (bindP m f)"
  unfolding keeps_handle_def
proof (intro allI)
  fix h w
  obtain r h1 w1 where m: "m (h, w) = (r, (h1, w1))"
    by (metis prod.exhaust)
  from assms(1) have "handle_after (m (h, w)) = h"
    by (simp add: keeps_handle_def)
  with m have "h1 = h"
    by (simp add: handle_after_def)
  with m assms(2) show "handle_after (bindP m f (h, w)) = h"
    by (cases r) (auto simp: bindP_apply keeps_handle_def handle_after_def)
qed

lemma keeps_client: "keeps_handle client"
  unfolding client_def by (intro keeps_bindP keeps_this keeps_returnP)

lemma keeps_connect: "keeps_handle (connect drv)"
  unfolding connect_def
  by (intro keeps_bindP keeps_client keeps_call keeps_this)
     (auto intro: keeps_bindP keeps_client keeps_call keeps_returnP)

lemma keeps_destroy: "keeps_handle (destroy drv)"
  unfolding destroy_def by (intro keeps_bindP keeps_client keeps_call)

lemma keeps_database: "keeps_handle (database drv d)"
  unfolding database_def by (intro keeps_bindP keeps_this keeps_call)

lemma keeps_collection: "keeps_handle (collection drv d c)"
  unfolding collection_def by (intro keeps_bindP keeps_database keeps_call)

lemma keeps_find: "keeps_handle (find_op drv d c f)"
  unfolding find_op_unwrap find_direct_def
  by (intro keeps_bindP keeps_connect keeps_collection keeps_call)

lemma keeps_update: "keeps_handle (update drv d c f u opts)"
  unfolding update_unwrap update_direct_def
  by (intro keeps_bindP keeps_connect keeps_collection keeps_call)

lemma keeps_add: "keeps_handle (add drv d c items opts)"
  unfolding add_unwrap add_direct_def
  by (intro keeps_bindP keeps_connect keeps_collection keeps_call)

lemma keeps_remove: "keeps_handle (remove drv d c f opts)"
  unfolding remove_unwrap remove_direct_def
  by (intro keeps_bindP keeps_connect keeps_collection keeps_call)

lemma keeps_handleD: "keeps_handle p \<Longrightarrow> handle_after (p (h, w)) = h"
  by (simp add: keeps_handle_def)

section \<open>The methods on the test double\<close>

lemma mem_sel:
  "drv_new (mem_driver reachable upd) = mem_new"
  "drv_isConnected (mem_driver reachable upd) = mem_isConnected"
  "drv_connect (mem_driver reachable upd) = mem_connect reachable"
  "drv_close (mem_driver reachable upd) = mem_close"
  "drv_db (mem_driver reachable upd) = mem_db"
  "drv_collection (mem_driver reachable upd) = mem_collection"
  "drv_find (mem_driver reachable upd) = mem_find"
  "drv_toArray (mem_driver reachable upd) = mem_toArray"
  "drv_updateMany (mem_driver reachable upd) = mem_updateMany upd"
  "drv_insertMany (mem_driver reachable upd) = mem_insertMany"
  "drv_deleteMany (mem_driver reachable upd) = mem_deleteMany"
  by (simp_all add: mem_driver_def)

lemma matches_empty: "matches (JObj []) doc"
  by (simp add: matches_def)

lemma set_lifecycle_same:
  assumes "client_at w c = Some (url, st)"
  shows "set_lifecycle c st w = w"
proof -
  from assms have "(clients w)[c := (url, st)] = clients w"
    by (metis client_at_def list_update_id option.distinct(1) option.inject)
  with assms show ?thesis
    by (simp add: set_lifecycle_def)
qed

lemma client_at_set_lifecycle:
  "client_at w c = Some (url, st) \<Longrightarrow> client_at (set_lifecycle c st' w) c = Some (url, st')"
  by (auto simp: set_lifecycle_def client_at_def split: if_splits)

lemma documents_set_lifecycle: "documents (set_lifecycle c st w) = documents w"
  by (simp add: set_lifecycle_def split: option.splits)

lemma live_connected:
  "client_at w c = Some (url, Connected) \<Longrightarrow> live c w = (Inr (), w)"
  by (simp add: live_def)

lemma connectable_iff:
  "connectable reachable w c \<longleftrightarrow>
     (\<exists>url. client_at w c = Some (url, Connected)) \<or>
     (\<exists>url. client_at w c = Some (url, Unconnected) \<and> reachable url)"
  by (auto simp: connectable_def split: option.splits lifecycle.splits)

lemma connectable_cases:
  assumes "connectable reachable w c"
  obtains url where "client_at w c = Some (url, Connected)"
  | url where "client_at w c = Some (url, Unconnected)" and "reachable url"
  using assms unfolding connectable_iff by blast

lemma connectable_after:
  assumes "connectable reachable w c"
  obtains url where "client_at (set_lifecycle c Connected w) c = Some (url, Connected)"
  using assms by (elim connectable_cases) (auto dest: client_at_set_lifecycle)

lemma connect_on_double:
  assumes "connectable reachable w (priv_client h)"
  shows "connect (logged (mem_driver reachable upd)) (h, (log, w)) =
           (Inr h, (h, (log @ succeeded (connect_calls w (priv_client h)),
              set_lifecycle (priv_client h) Connected w)))"
  using assms
proof (cases rule: connectable_cases)
  case (1 url)
  then show ?thesis
    by (simp add: connect_logged_apply mem_sel mem_isConnected_def connect_calls_def
        succeeded_def set_lifecycle_same)
next
  case (2 url)
  then show ?thesis
    by (simp add: connect_logged_apply mem_sel mem_isConnected_def mem_connect_def
        connect_calls_def succeeded_def)
qed

lemma connect_refused:
  assumes "client_at w (priv_client h) = Some (url, Unconnected)" and "\<not> reachable url"
  shows "connect (logged (mem_driver reachable upd)) (h, ([], w)) =
           (Inl (ConnectionFailure url),
            (h, ([(IsConnected, None), (Connect, Some (ConnectionFailure url))], w)))"
  using assms
  by (simp add: connect_logged_apply mem_sel mem_isConnected_def mem_connect_def)

lemma collection_on_double:
  "collection (logged (mem_driver reachable upd)) d cn (h, (log, w)) =
     (Inr (priv_client h, d, cn), (h, (log @ succeeded [Db d, Collection cn], w)))"
  by (simp add: collection_apply logged_sel record_call_apply mem_sel mem_db_def
      mem_collection_def returnP_def succeeded_def)

lemma find_on_double:
  assumes "connectable reachable w (priv_client h)"
  shows "find_op (logged (mem_driver reachable upd)) d cn flt (h, ([], w)) =
     (Inr (filter (matches (or_default (JObj []) flt)) (documents w (d, cn))),
      (h, (succeeded (connect_calls w (priv_client h) @
             [Db d, Collection cn, Find (or_default (JObj []) flt), ToArray]),
           set_lifecycle (priv_client h) Connected w)))"
proof -
  from assms obtain url where
    "client_at (set_lifecycle (priv_client h) Connected w) (priv_client h) = Some (url, Connected)"
    by (rule connectable_after)
  then show ?thesis
    by (simp add: find_op_unwrap find_direct_def bindP_apply connect_on_double[OF assms]
        collection_on_double call_apply logged_sel record_call_apply mem_sel mem_find_def
        mem_toArray_def returnP_def live_connected documents_set_lifecycle succeeded_def)
qed

lemma update_on_double:
  assumes "connectable reachable w (priv_client h)"
  shows "update (logged (mem_driver reachable upd)) d cn flt u opts (h, ([], w)) =
     (Inr (update_summary
             (length (filter (matches (or_default (JObj []) flt)) (documents w (d, cn))))
             (length (filter (\<lambda>doc. matches (or_default (JObj []) flt) doc \<and>
                        upd (or_default (JObj []) u) doc \<noteq> doc) (documents w (d, cn))))),
      (h, (succeeded (connect_calls w (priv_client h) @
             [Db d, Collection cn,
              UpdateMany (or_default (JObj []) flt) (or_default (JObj []) u)
                (or_default (JObj []) opts)]),
           (set_lifecycle (priv_client h) Connected w)
             \<lparr>documents := (documents w)
                ((d, cn) := map (\<lambda>doc. if matches (or_default (JObj []) flt) doc
                                       then upd (or_default (JObj []) u) doc else doc)
                              (documents w (d, cn)))\<rparr>)))"
proof -
  from assms obtain url where
    "client_at (set_lifecycle (priv_client h) Connected w) (priv_client h) = Some (url, Connected)"
    by (rule connectable_after)
  then show ?thesis
    by (simp add: update_unwrap update_direct_def bindP_apply connect_on_double[OF assms]
        collection_on_double call_apply logged_sel record_call_apply mem_sel
        mem_updateMany_def live_connected documents_set_lifecycle succeeded_def Let_def)
qed

lemma add_on_double:
  assumes "connectable reachable w (priv_client h)"
  shows "add (logged (mem_driver reachable upd)) d cn items opts (h, ([], w)) =
     (Inr (insert_summary (length (or_default [] items))),
      (h, (succeeded (connect_calls w (priv_client h) @
             [Db d, Collection cn,
              InsertMany (or_default [] items) (or_default (JObj []) opts)]),
           (set_lifecycle (priv_client h) Connected w)
             \<lparr>documents := (documents w)
                ((d, cn) := documents w (d, cn) @ or_default [] items)\<rparr>)))"
proof -
  from assms obtain url where
    "client_at (set_lifecycle (priv_client h) Connected w) (priv_client h) = Some (url, Connected)"
    by (rule connectable_after)
  then show ?thesis
    by (simp add: add_unwrap add_direct_def bindP_apply connect_on_double[OF assms]
        collection_on_double call_apply logged_sel record_call_apply mem_sel
        mem_insertMany_def live_connected documents_set_lifecycle succeeded_def)
qed

lemma remove_on_double:
  assumes "connectable reachable w (priv_client h)"
  shows "remove (logged (mem_driver reachable upd)) d cn flt opts (h, ([], w)) =
     (Inr (delete_summary
             (length (filter (matches (or_default (JObj []) flt)) (documents w (d, cn))))),
      (h, (succeeded (connect_calls w (priv_client h) @
             [Db d, Collection cn,
              DeleteMany (or_default (JObj []) flt) (or_default (JObj []) opts)]),
           (set_lifecycle (priv_client h) Connected w)
             \<lparr>documents := (documents w)
                ((d, cn) := filter (\<lambda>doc. \<not> matches (or_default (JObj []) flt) doc)
                              (documents w (d, cn)))\<rparr>)))"
proof -
  from assms obtain url where
    "client_at (set_lifecycle (priv_client h) Connected w) (priv_client h) = Some (url, Connected)"
    by (rule connectable_after)
  then show ?thesis
    by (simp add: remove_unwrap remove_direct_def bindP_apply connect_on_double[OF assms]
        collection_on_double call_apply logged_sel record_call_apply mem_sel
        mem_deleteMany_def live_connected documents_set_lifecycle succeeded_def Let_def)
qed

lemma fresh_world_connectable: "connectable only_local fresh_world (priv_client handle0)"
  by (simp add: connectable_def client_at_def fresh_world_def handle0_def only_local_def)

section \<open>add hands the items to the driver\<close>

lemma add_delegates:
  assumes "bindP (connect (logged drv)) (\<lambda>_. collection (logged drv) d cn) (h, ([], w)) =
             (Inr k, (h1, (log1, w1)))"
  shows "add (logged drv) d cn items opts (h, ([], w)) =
     (case drv_insertMany drv k (or_default [] items) (or_default (JObj []) opts) w1 of
        (Inl e, w2) \<Rightarrow>
          (Inl e,
           (h1, (log1 @ [(InsertMany (or_default [] items) (or_default (JObj []) opts), Some e)],
                 w2)))
      | (Inr r, w2) \<Rightarrow>
          (Inr r,
           (h1, (log1 @ [(InsertMany (or_default [] items) (or_default (JObj []) opts), None)],
                 w2))))"
proof -
  obtain r0 s0 where c: "connect (logged drv) (h, ([], w)) = (r0, s0)"
    by (metis prod.exhaust)
  show ?thesis
  proof (cases r0)
    case (Inl e)
    with c assms show ?thesis
      by (simp add: bindP_apply)
  next
    case (Inr x)
    with c assms have "collection (logged drv) d cn s0 = (Inr k, (h1, (log1, w1)))"
      by (simp add: bindP_apply)
    with c Inr show ?thesis
      by (simp add: add_unwrap add_direct_def bindP_apply call_apply logged_sel
          record_call_apply split: prod.splits sum.splits)
  qed
qed

section \<open>connect(), twice\<close>

lemma connect_returns_this: "fst (connect drv (h, s)) = Inr x \<Longrightarrow> x = h"
  by (auto simp: connect_apply split: prod.splits sum.splits bool.splits)

lemma connect_attempts_le1:
  "connect_attempts (log_after (connect (logged drv) (h, (log, w)))) \<le> Suc (connect_attempts log)"
  by (simp add: connect_logged_apply connect_attempts_def log_after_def
      split: prod.splits sum.splits bool.splits)

lemma twice_when_connected:
  assumes "drv_isConnected drv (priv_client h) w = (Inr True, w1)"
  shows "connect_attempts (log_after
           (bindP (connect (logged drv)) (\<lambda>_. connect (logged drv)) (h, ([], w)))) \<le> 1"
proof -
  have "bindP (connect (logged drv)) (\<lambda>_. connect (logged drv)) (h, ([], w)) =
          connect (logged drv) (h, ([(IsConnected, None)], w1))"
    using assms by (simp add: bindP_apply connect_logged_apply)
  moreover have "connect_attempts (log_after
      (connect (logged drv) (h, ([(IsConnected, None)], w1)))) \<le> Suc 0"
    using connect_attempts_le1[of drv h "[(IsConnected, None)]" w1]
    by (simp add: connect_attempts_def)
  ultimately show ?thesis by simp
qed

lemma twice_when_reporting:
  assumes "reports_connected drv"
  shows "connect_attempts (log_after
           (bindP (connect (logged drv)) (\<lambda>_. connect (logged drv)) (h, ([], w)))) \<le> 1"
proof -
  obtain r w1 where ic: "drv_isConnected drv (priv_client h) w = (r, w1)"
    by (metis prod.exhaust)
  show ?thesis
  proof (cases r)
    case (Inl e)
    with ic show ?thesis
      by (simp add: bindP_apply connect_logged_apply connect_attempts_def log_after_def)
  next
    case (Inr b)
    show ?thesis
    proof (cases b)
      case True
      with ic Inr show ?thesis by (intro twice_when_connected) simp
    next
      case False
      obtain r2 w2 where dc: "drv_connect drv (priv_client h) w1 = (r2, w2)"
        by (metis prod.exhaust)
      show ?thesis
      proof (cases r2)
        case (Inl e)
        with ic Inr False dc show ?thesis
          by (simp add: bindP_apply connect_logged_apply connect_attempts_def log_after_def)
      next
        case (Inr u)
        with dc assms have "fst (drv_isConnected drv (priv_client h) w2) = Inr True"
          by (auto simp: reports_connected_def)
        then obtain w3 where "drv_isConnected drv (priv_client h) w2 = (Inr True, w3)"
          by (metis prod.collapse)
        with ic \<open>r = Inr b\<close> False dc Inr show ?thesis
          by (simp add: bindP_apply connect_logged_apply connect_attempts_def log_after_def)
      qed
    qed
  qed
qed

lemma double_reports_connected: "reports_connected (mem_driver reachable upd)"
  by (auto simp: reports_connected_def mem_sel mem_connect_def mem_isConnected_def
      client_at_set_lifecycle split: option.splits lifecycle.splits if_splits)

section \<open>Lookups\<close>

lemma calls_database:
  "calls (log_after (database (logged drv) d (h, ([], w)))) = [Db d]"
  by (simp add: database_apply logged_sel record_call_apply calls_def log_after_def
      split: prod.splits sum.splits)

lemma calls_collection:
  "calls (log_after (collection (logged drv) d c (h, ([], w)))) =
     (case outcome (database (logged drv) d (h, ([], w))) of
        Inl e \<Rightarrow> [Db d]
      | Inr db \<Rightarrow> [Db d, Collection c])"
  by (simp add: collection_apply database_apply logged_sel record_call_apply calls_def
      log_after_def outcome_def split: prod.splits sum.splits)

section \<open>The claims\<close>

subsection \<open>The try/catch blocks\<close>

text \<open>
  C10. In find, update, add and remove the catch clause rethrows the error it caught,
  so each method is the same program as its body without the try/catch: connect, then
  the driver's find and toArray, updateMany, insertMany or deleteMany on the collection.
  This holds for every driver.
\<close>

theorem try_catch_is_noop:
  "find_op drv d c f = find_direct drv d c f
   \<and> update drv d c f u opts = update_direct drv d c f u opts
   \<and> add drv d c items opts = add_direct drv d c items opts
   \<and> remove drv d c f opts = remove_direct drv d c f opts"
  by (simp only: find_op_unwrap update_unwrap add_unwrap remove_unwrap)

subsection \<open>The client reference\<close>

text \<open>
  C9. The private client field is set once, by the constructor, to the client object the
  driver's constructor returned. The accessor reads it, and connect, destroy, database,
  collection, find, update, add and remove all leave the object as it was, whatever the
  driver does and whether the method returns or throws.
\<close>

theorem client_reference_fixed:
  "constructor drv url w =
     (case drv_new drv url (JObj [(''useUnifiedTopology'', JBool True)]) w of
        (Inl e, w') \<Rightarrow> (Inl e, w')
      | (Inr c, w') \<Rightarrow> (Inr \<lparr>priv_client = c\<rparr>, w'))
   \<and> client (h, s) = (Inr (priv_client h), (h, s))
   \<and> handle_after (connect drv (h, s)) = h
   \<and> handle_after (destroy drv (h, s)) = h
   \<and> handle_after (database drv d (h, s)) = h
   \<and> handle_after (collection drv d c (h, s)) = h
   \<and> handle_after (find_op drv d c f (h, s)) = h
   \<and> handle_after (update drv d c f u opts (h, s)) = h
   \<and> handle_after (add drv d c items opts (h, s)) = h
   \<and> handle_after (remove drv d c f opts (h, s)) = h"
  by (intro conjI constructor_apply client_apply keeps_handleD keeps_connect keeps_destroy
      keeps_database keeps_collection keeps_find keeps_update keeps_add keeps_remove)

subsection \<open>database and collection\<close>

text \<open>
  C8. collection(d, c) is database(d) followed by the driver's collection(c) on the Db it
  returned, and database(d) is the driver's db(d) on the object's client. For every name,
  with no check of its format: the only driver calls are those lookups, and the wrapper
  throws nothing but what one of them threw.
\<close>

theorem collection_resolves_database_first:
  "collection drv d c (h, w) =
     (case database drv d (h, w) of
        (Inl e, s') \<Rightarrow> (Inl e, s')
      | (Inr db, s') \<Rightarrow> call (drv_collection drv db c) s')
   \<and> database drv d (h, w) = (case drv_db drv (priv_client h) d w of (r, w') \<Rightarrow> (r, (h, w')))
   \<and> calls (log_after (database (logged drv) d (h, ([], w)))) = [Db d]
   \<and> calls (log_after (collection (logged drv) d c (h, ([], w)))) =
       (case outcome (database (logged drv) d (h, ([], w))) of
          Inl e \<Rightarrow> [Db d]
        | Inr db \<Rightarrow> [Db d, Collection c])
   \<and> settled (log_after (database (logged drv) d (h, ([], w))))
       (outcome (database (logged drv) d (h, ([], w))))
   \<and> settled (log_after (collection (logged drv) d c (h, ([], w))))
       (outcome (collection (logged drv) d c (h, ([], w))))"
  by (intro conjI collection_via_database database_apply calls_database calls_collection
      tracks_from_empty tracks_database tracks_collection)

theorem collection_resolves_database_first_witness:
  "collection test_double [] [] (handle0, ([], fresh_world)) =
     (Inr (0, [], []), (handle0, (succeeded [Db [], Collection []], fresh_world)))"
  using collection_resolves_database_first[where drv = "mem_driver only_local set_fields"
      and d = "[]" and c = "[]" and h = handle0 and w = fresh_world]
  by (simp add: test_double_def collection_on_double handle0_def)

subsection \<open>Failures\<close>

text \<open>
  C5. For find, update, add and remove over any driver, started on an empty log: the
  log agrees with the outcome. When the method throws \<open>e\<close>, the last driver call threw
  that \<open>e\<close> and every call before it succeeded; when the method returns, every driver
  call succeeded. So a failure of the driver reaches the caller as the same value, is
  never replaced or hidden by a result, and is not followed by another driver call.
\<close>

theorem failures_propagate_unchanged:
  "settled (log_after (find_op (logged drv) d c f (h, ([], w))))
     (outcome (find_op (logged drv) d c f (h, ([], w))))
   \<and> settled (log_after (update (logged drv) d c f u opts (h, ([], w))))
     (outcome (update (logged drv) d c f u opts (h, ([], w))))
   \<and> settled (log_after (add (logged drv) d c items opts (h, ([], w))))
     (outcome (add (logged drv) d c items opts (h, ([], w))))
   \<and> settled (log_after (remove (logged drv) d c f opts (h, ([], w))))
     (outcome (remove (logged drv) d c f opts (h, ([], w))))"
  by (intro conjI tracks_from_empty tracks_find tracks_update tracks_add tracks_remove)

theorem failures_propagate_unchanged_witness:
  "find_op test_double ''db'' ''coll'' None (handle0, ([], offline_world)) =
     (Inl (ConnectionFailure offline_url),
      (handle0, ([(IsConnected, None), (Connect, Some (ConnectionFailure offline_url))],
         offline_world)))
   \<and> settled [(IsConnected, None), (Connect, Some (ConnectionFailure offline_url))]
       (Inl (ConnectionFailure offline_url) :: mem_error + jsval list)"
proof -
  have r: "find_op test_double ''db'' ''coll'' None (handle0, ([], offline_world)) =
     (Inl (ConnectionFailure offline_url),
      (handle0, ([(IsConnected, None), (Connect, Some (ConnectionFailure offline_url))],
         offline_world)))"
    by (simp add: find_op_unwrap find_direct_def bindP_apply connect_logged_apply test_double_def
      mem_sel mem_isConnected_def mem_connect_def client_at_def offline_world_def handle0_def
      only_local_def local_url_def offline_url_def)
  show ?thesis
    using r failures_propagate_unchanged[where drv = "mem_driver only_local set_fields"
        and d = "''db''" and c = "''coll''" and f = None and h = handle0 and w = offline_world]
    by (simp add: test_double_def log_after_def outcome_def)
qed

subsection \<open>connect\<close>

text \<open>
  C4. When the client answers isConnected() with true, connect() makes that one call
  and no connect call on the client, and returns the object. Whenever connect() returns,
  it returns the object itself. Two connect() calls in a row, the second made once the
  first has returned, make at most one client connect call: from a client that already
  reports connected with any driver, and from any state with a driver whose client
  reports connected once its connect has resolved.
\<close>

theorem connect_idempotent:
  "(drv_isConnected drv (priv_client h) w = (Inr True, w1) \<longrightarrow>
      connect (logged drv) (h, (log, w)) = (Inr h, (h, (log @ [(IsConnected, None)], w1))))
   \<and> (fst (connect drv (h, w)) = Inr x \<longrightarrow> x = h)
   \<and> (drv_isConnected drv (priv_client h) w = (Inr True, w1) \<longrightarrow>
        connect_attempts (log_after
          (bindP (connect (logged drv)) (\<lambda>_. connect (logged drv)) (h, ([], w)))) \<le> 1)
   \<and> (reports_connected drv \<longrightarrow>
        connect_attempts (log_after
          (bindP (connect (logged drv)) (\<lambda>_. connect (logged drv)) (h, ([], w)))) \<le> 1)"
  using connect_returns_this[of drv h w x] twice_when_connected[of drv h w w1]
    twice_when_reporting[of drv h w]
  by (simp add: connect_logged_apply)

theorem connect_idempotent_witness:
  "drv_isConnected (mem_driver only_local set_fields) (priv_client handle0) connected_world =
     (Inr True, connected_world)
   \<and> connect test_double (handle0, ([], connected_world)) =
       (Inr handle0, (handle0, ([(IsConnected, None)], connected_world)))
   \<and> fst (connect (mem_driver only_local set_fields) (handle0, fresh_world)) = Inr handle0
   \<and> reports_connected (mem_driver only_local set_fields)
   \<and> connect_attempts (log_after
        (bindP (connect test_double) (\<lambda>_. connect test_double) (handle0, ([], fresh_world)))) \<le> 1
   \<and> connect_attempts (log_after
        (bindP (connect test_double) (\<lambda>_. connect test_double) (handle0, ([], connected_world)))) \<le> 1"
proof -
  have ic: "drv_isConnected (mem_driver only_local set_fields) (priv_client handle0)
      connected_world = (Inr True, connected_world)"
    by (simp add: mem_sel mem_isConnected_def client_at_def connected_world_def handle0_def)
  have ret: "fst (connect (mem_driver only_local set_fields) (handle0, fresh_world)) =
      Inr handle0"
    by (simp add: connect_apply mem_sel mem_isConnected_def mem_connect_def client_at_def
        fresh_world_def handle0_def only_local_def)
  have rc: "reports_connected (mem_driver only_local set_fields)"
    by (rule double_reports_connected)
  show ?thesis
    using ic ret rc
      connect_idempotent[where drv = "mem_driver only_local set_fields" and h = handle0
        and w = connected_world and ?w1.0 = connected_world and log = "[]" and x = handle0]
      connect_idempotent[where drv = "mem_driver only_local set_fields" and h = handle0
        and w = fresh_world and x = handle0]
    by (simp add: test_double_def)
qed

subsection \<open>Construction\<close>

text \<open>
  C7. For every URL, the constructor makes one driver call, the instantiation of the
  client with that URL and the unified-topology option, and throws only if that call
  throws. On the test double the instantiation never throws: it stores the URL in a new,
  unconnected client object and the constructor returns the object holding its reference.
  A URL that cannot be connected to shows only afterwards: connect() on that object makes
  the client's connect call, which fails.
\<close>

theorem construction_never_throws:
  "constructor (logged drv) url ([], w0) =
     (case drv_new drv url (JObj [(''useUnifiedTopology'', JBool True)]) w0 of
        (Inl e, w') \<Rightarrow>
          (Inl e, ([(NewClient url (JObj [(''useUnifiedTopology'', JBool True)]), Some e)], w'))
      | (Inr c, w') \<Rightarrow>
          (Inr \<lparr>priv_client = c\<rparr>,
           ([(NewClient url (JObj [(''useUnifiedTopology'', JBool True)]), None)], w')))
   \<and> constructor (logged (mem_driver reachable upd)) url ([], w) =
       (Inr \<lparr>priv_client = length (clients w)\<rparr>,
        ([(NewClient url (JObj [(''useUnifiedTopology'', JBool True)]), None)],
         w\<lparr>clients := clients w @ [(url, Unconnected)]\<rparr>))
   \<and> (\<not> reachable url \<longrightarrow>
        connect (logged (mem_driver reachable upd))
          (\<lparr>priv_client = length (clients w)\<rparr>,
           ([], w\<lparr>clients := clients w @ [(url, Unconnected)]\<rparr>)) =
        (Inl (ConnectionFailure url),
         (\<lparr>priv_client = length (clients w)\<rparr>,
          ([(IsConnected, None), (Connect, Some (ConnectionFailure url))],
           w\<lparr>clients := clients w @ [(url, Unconnected)]\<rparr>))))"
proof -
  have "client_at (w\<lparr>clients := clients w @ [(url, Unconnected)]\<rparr>)
          (priv_client \<lparr>priv_client = length (clients w)\<rparr>) = Some (url, Unconnected)"
    by (simp add: client_at_def)
  then show ?thesis
    by (simp add: constructor_logged_first mem_sel mem_new_def connect_refused)
qed

theorem construction_never_throws_witness:
  "\<not> only_local offline_url
   \<and> constructor test_double offline_url ([], fresh_world) =
       (Inr \<lparr>priv_client = 1\<rparr>,
        ([(NewClient offline_url (JObj [(''useUnifiedTopology'', JBool True)]), None)],
         fresh_world\<lparr>clients := [(local_url, Unconnected), (offline_url, Unconnected)]\<rparr>))
   \<and> outcome (connect test_double
        (\<lparr>priv_client = 1\<rparr>,
         ([], fresh_world\<lparr>clients := [(local_url, Unconnected), (offline_url, Unconnected)]\<rparr>))) =
       Inl (ConnectionFailure offline_url)"
proof -
  have u: "\<not> only_local offline_url"
    by (simp add: only_local_def local_url_def offline_url_def)
  show ?thesis
    using u construction_never_throws[where reachable = only_local and upd = set_fields
        and url = offline_url and w = fresh_world and drv = "mem_driver only_local set_fields"
        and ?w0.0 = fresh_world, THEN conjunct2]
    by (simp add: test_double_def fresh_world_def outcome_def)
qed

subsection \<open>find\<close>

text \<open>
  C1. On the test double, for every database name, collection name and filter, and every
  client that is connected or can be connected: find first makes sure the client is
  connected (isConnected, then connect if it was not), then resolves the collection,
  builds the cursor for the filter and materializes it with toArray. It returns, as a
  list, every document of the collection that matches the filter, in the collection's
  order, and changes no document. With the filter omitted or empty the list is the whole
  collection.
\<close>

theorem find_returns_every_match:
  assumes "connectable reachable w (priv_client h)"
  shows "find_op (logged (mem_driver reachable upd)) d cn flt (h, ([], w)) =
     (Inr (filter (matches (or_default (JObj []) flt)) (documents w (d, cn))),
      (h, (succeeded (connect_calls w (priv_client h) @
             [Db d, Collection cn, Find (or_default (JObj []) flt), ToArray]),
           set_lifecycle (priv_client h) Connected w)))
   \<and> outcome (find_op (logged (mem_driver reachable upd)) d cn None (h, ([], w))) =
       Inr (documents w (d, cn))
   \<and> outcome (find_op (logged (mem_driver reachable upd)) d cn (Some (JObj [])) (h, ([], w))) =
       Inr (documents w (d, cn))"
  by (simp add: find_on_double[OF assms] outcome_def or_default_def matches_empty)

theorem find_returns_every_match_witness:
  "connectable only_local fresh_world (priv_client handle0)
   \<and> find_op test_double ''db'' ''coll'' (Some (JObj [(''name'', JStr ''a'')]))
         (handle0, ([], fresh_world)) =
       (Inr [doc_a],
        (handle0,
         (succeeded [IsConnected, Connect, Db ''db'', Collection ''coll'',
            Find (JObj [(''name'', JStr ''a'')]), ToArray],
          set_lifecycle 0 Connected fresh_world)))
   \<and> outcome (find_op test_double ''db'' ''coll'' None (handle0, ([], fresh_world))) =
       Inr [doc_a, doc_b]"
  using fresh_world_connectable
    find_returns_every_match[OF fresh_world_connectable, where upd = set_fields
      and d = "''db''" and cn = "''coll''" and flt = "Some (JObj [(''name'', JStr ''a'')])"]
  by (simp add: test_double_def or_default_def connect_calls_def client_at_def
      fresh_world_def handle0_def seeded_def matches_def doc_a_def doc_b_def)

subsection \<open>update\<close>

text \<open>
  C2. On the test double, for every database name, collection name, filter, update
  specification and options, and every client that is connected or can be connected:
  update first makes sure the client is connected, then makes one updateMany call with
  the filter, the update and the options as given. Every document that matches the
  filter is updated, not only the first, the others stay as they are, and the result is
  the driver's summary of the matched and modified counts. With the filter omitted or
  empty every document of the collection is updated.
\<close>

theorem update_reaches_every_match:
  assumes "connectable reachable w (priv_client h)"
  shows "update (logged (mem_driver reachable upd)) d cn flt u opts (h, ([], w)) =
     (Inr (update_summary
             (length (filter (matches (or_default (JObj []) flt)) (documents w (d, cn))))
             (length (filter (\<lambda>doc. matches (or_default (JObj []) flt) doc \<and>
                        upd (or_default (JObj []) u) doc \<noteq> doc) (documents w (d, cn))))),
      (h, (succeeded (connect_calls w (priv_client h) @
             [Db d, Collection cn,
              UpdateMany (or_default (JObj []) flt) (or_default (JObj []) u)
                (or_default (JObj []) opts)]),
           (set_lifecycle (priv_client h) Connected w)
             \<lparr>documents := (documents w)
                ((d, cn) := map (\<lambda>doc. if matches (or_default (JObj []) flt) doc
                                       then upd (or_default (JObj []) u) doc else doc)
                              (documents w (d, cn)))\<rparr>)))
   \<and> documents (world_after
         (update (logged (mem_driver reachable upd)) d cn None u opts (h, ([], w)))) (d, cn) =
       map (upd (or_default (JObj []) u)) (documents w (d, cn))
   \<and> documents (world_after
         (update (logged (mem_driver reachable upd)) d cn (Some (JObj [])) u opts (h, ([], w))))
         (d, cn) =
       map (upd (or_default (JObj []) u)) (documents w (d, cn))"
  by (simp add: update_on_double[OF assms] world_after_def or_default_def matches_empty)

theorem update_reaches_every_match_witness:
  "connectable only_local fresh_world (priv_client handle0)
   \<and> outcome (update test_double ''db'' ''coll'' (Some (JObj [(''name'', JStr ''a'')]))
        (Some (JObj [(''name'', JStr ''z'')])) None (handle0, ([], fresh_world))) =
       Inr (update_summary 1 1)
   \<and> documents (world_after (update test_double ''db'' ''coll'' None
        (Some (JObj [(''seen'', JBool True)])) None (handle0, ([], fresh_world))))
        (''db'', ''coll'') =
       [JObj [(''seen'', JBool True), (''id'', JNum 1), (''name'', JStr ''a'')],
        JObj [(''seen'', JBool True), (''id'', JNum 2), (''name'', JStr ''b'')]]"
  using fresh_world_connectable
    update_reaches_every_match[OF fresh_world_connectable, where upd = set_fields
      and d = "''db''" and cn = "''coll''" and flt = "Some (JObj [(''name'', JStr ''a'')])"
      and u = "Some (JObj [(''name'', JStr ''z'')])" and opts = None]
    update_reaches_every_match[OF fresh_world_connectable, where upd = set_fields
      and d = "''db''" and cn = "''coll''" and flt = None
      and u = "Some (JObj [(''seen'', JBool True)])" and opts = None]
  by (simp add: test_double_def or_default_def outcome_def world_after_def
      fresh_world_def seeded_def matches_def doc_a_def doc_b_def set_fields_def)

subsection \<open>remove\<close>

text \<open>
  C3. On the test double, for every database name, collection name, filter and options,
  and every client that is connected or can be connected: remove first makes sure the
  client is connected, then makes one deleteMany call with the filter and the options
  as given. Every document that matches the filter is deleted, not only the first, and
  the others stay. With the filter omitted or empty the collection is left empty.
\<close>

theorem remove_deletes_every_match:
  assumes "connectable reachable w (priv_client h)"
  shows "remove (logged (mem_driver reachable upd)) d cn flt opts (h, ([], w)) =
     (Inr (delete_summary
             (length (filter (matches (or_default (JObj []) flt)) (documents w (d, cn))))),
      (h, (succeeded (connect_calls w (priv_client h) @
             [Db d, Collection cn,
              DeleteMany (or_default (JObj []) flt) (or_default (JObj []) opts)]),
           (set_lifecycle (priv_client h) Connected w)
             \<lparr>documents := (documents w)
                ((d, cn) := filter (\<lambda>doc. \<not> matches (or_default (JObj []) flt) doc)
                              (documents w (d, cn)))\<rparr>)))
   \<and> documents (world_after
         (remove (logged (mem_driver reachable upd)) d cn None opts (h, ([], w)))) (d, cn) = []
   \<and> documents (world_after
         (remove (logged (mem_driver reachable upd)) d cn (Some (JObj [])) opts (h, ([], w))))
         (d, cn) = []"
  by (simp add: remove_on_double[OF assms] world_after_def or_default_def matches_empty)

theorem remove_deletes_every_match_witness:
  "connectable only_local fresh_world (priv_client handle0)
   \<and> outcome (remove test_double ''db'' ''coll'' (Some (JObj [(''id'', JNum 2)])) None
        (handle0, ([], fresh_world))) = Inr (delete_summary 1)
   \<and> documents (world_after (remove test_double ''db'' ''coll''
        (Some (JObj [(''id'', JNum 2)])) None (handle0, ([], fresh_world))))
        (''db'', ''coll'') = [doc_a]"
  using fresh_world_connectable
    remove_deletes_every_match[OF fresh_world_connectable, where upd = set_fields
      and d = "''db''" and cn = "''coll''" and flt = "Some (JObj [(''id'', JNum 2)])"
      and opts = None]
  by (simp add: test_double_def or_default_def outcome_def world_after_def
      fresh_world_def seeded_def matches_def doc_a_def doc_b_def)

subsection \<open>add\<close>

text \<open>
  C6. On the test double, for every database name, collection name and options, and every
  client that is connected or can be connected: add first makes sure the client is
  connected, then makes one insertMany call with the items and the options as given and
  returns the driver's insertion summary; the items are appended to the collection in
  the given order. With the items empty or omitted that call is made with zero items,
  add does not throw, the summary counts no insertion and no collection changes.
\<close>

theorem add_inserts_in_order:
  assumes "connectable reachable w (priv_client h)"
  shows "add (logged (mem_driver reachable upd)) d cn items opts (h, ([], w)) =
     (Inr (insert_summary (length (or_default [] items))),
      (h, (succeeded (connect_calls w (priv_client h) @
             [Db d, Collection cn,
              InsertMany (or_default [] items) (or_default (JObj []) opts)]),
           (set_lifecycle (priv_client h) Connected w)
             \<lparr>documents := (documents w)
                ((d, cn) := documents w (d, cn) @ or_default [] items)\<rparr>)))
   \<and> add (logged (mem_driver reachable upd)) d cn (Some []) opts (h, ([], w)) =
       (Inr (insert_summary 0),
        (h, (succeeded (connect_calls w (priv_client h) @
               [Db d, Collection cn, InsertMany [] (or_default (JObj []) opts)]),
             set_lifecycle (priv_client h) Connected w)))
   \<and> add (logged (mem_driver reachable upd)) d cn None opts (h, ([], w)) =
       (Inr (insert_summary 0),
        (h, (succeeded (connect_calls w (priv_client h) @
               [Db d, Collection cn, InsertMany [] (or_default (JObj []) opts)]),
             set_lifecycle (priv_client h) Connected w)))"
proof -
  have same: "(set_lifecycle (priv_client h) Connected w)\<lparr>documents := documents w\<rparr> =
      set_lifecycle (priv_client h) Connected w"
    by (simp add: set_lifecycle_def split: option.splits)
  show ?thesis
    by (simp add: add_on_double[OF assms] or_default_def same)
qed

theorem add_inserts_in_order_witness:
  "connectable only_local fresh_world (priv_client handle0)
   \<and> add test_double ''db'' ''coll'' (Some []) None (handle0, ([], fresh_world)) =
       (Inr (insert_summary 0),
        (handle0,
         (succeeded [IsConnected, Connect, Db ''db'', Collection ''coll'',
            InsertMany [] (JObj [])],
          set_lifecycle 0 Connected fresh_world)))
   \<and> outcome (add test_double ''db'' ''coll'' (Some [doc_c]) None
        (handle0, ([], fresh_world))) = Inr (insert_summary 1)
   \<and> documents (world_after (add test_double ''db'' ''coll'' (Some [doc_c]) None
        (handle0, ([], fresh_world)))) (''db'', ''coll'') = [doc_a, doc_b, doc_c]"
proof -
  have ref0: "priv_client handle0 = 0"
    by (simp add: handle0_def)
  have calls0: "connect_calls fresh_world 0 = [IsConnected, Connect]"
    by (simp add: connect_calls_def client_at_def fresh_world_def)
  have seeded0: "documents fresh_world (''db'', ''coll'') = [doc_a, doc_b]"
    by (simp add: fresh_world_def seeded_def)
  show ?thesis
    using fresh_world_connectable
      add_inserts_in_order[OF fresh_world_connectable, where upd = set_fields and d = "''db''"
        and cn = "''coll''" and items = "Some [doc_c]" and opts = None]
    by (simp add: test_double_def or_default_def outcome_def world_after_def ref0 calls0
        seeded0)
qed

end
